theory Spec2Isabelle
  imports
    Main
    "HOL-Library.Word"
    "HOL-Library.Finite_Map"
    "HOL-Library.Char_ord"
    "HOL-Library.List_Lexorder"
begin

section \<open>The file-backed key-value store of lumen (package store)\<close>

text \<open>
  The development embeds the file driver of lumen's store: the types \<open>fileEntry\<close>,
  \<open>fileData\<close> and \<open>FileStore\<close>, the loader \<open>newFileDataFromFile\<close>, \<open>sync\<close>, and the
  operations \<open>Set\<close>, \<open>Get\<close> and \<open>Delete\<close>.

  What the Go code takes from its environment is made explicit:
  \<^item> \<open>time.Now()\<close> is an argument \<open>now\<close> of every operation that reads the clock. An
    instant is an integer number of nanoseconds since the Unix epoch; the wall clock
    and the monotonic reading of a Go \<open>time.Time\<close> are taken to agree, and the
    location of a time value is not modelled.
  \<^item> the file system is a value of type \<open>disk\<close>, passed in and returned.
  \<^item> \<open>encoding/json\<close> is modelled on JSON documents (type \<open>json\<close>), from the documented
    behaviour of \<open>json.Marshal\<close> and \<open>json.Unmarshal\<close> on the two struct types of the
    source; the text of a document (white space, escapes) is not modelled.
  \<^item> the text form of a \<open>time.Time\<close> (RFC 3339) is a parameter, \<open>time_codec\<close>.
  \<^item> the mutex \<open>mu\<close> is not modelled: operations are run one at a time.
  \<^item> logging through logrus has no effect on the store and is left out.
\<close>

subsection \<open>Time\<close>

type_synonym time = int

text \<open>\<open>time.Duration\<close> is an \<open>int64\<close> count of nanoseconds.\<close>

type_synonym Duration = "64 word"

text \<open>
  \<open>t.Add(d)\<close>. Go saturates only when the sum leaves the range of \<open>time.Time\<close>
  (hundreds of billions of years), which no clock reading plus an \<open>int64\<close> of nanoseconds
  reaches.
\<close>

definition Add :: "time \<Rightarrow> Duration \<Rightarrow> time" where
  "Add t d = t + sint d"

text \<open>\<open>t.After(u)\<close>: strictly later.\<close>

definition After :: "time \<Rightarrow> time \<Rightarrow> bool" where
  "After t u = (u < t)"

text \<open>The zero \<open>time.Time\<close>: 1 January of year 1, 00:00:00 UTC.\<close>

definition zero_time :: time where
  "zero_time = - 62135596800 * 1000000000"

text \<open>
  \<open>time.Time\<close>'s \<open>MarshalJSON\<close> (the text of an instant, or an error: Go refuses years
  outside 0..9999) and the parser behind its \<open>UnmarshalJSON\<close>.
\<close>

record time_codec =
  format_time :: "time \<Rightarrow> string option"
  parse_time :: "string \<Rightarrow> time option"

subsection \<open>Errors and panics\<close>

datatype error =
    ReadError \<comment> \<open>\<open>ioutil.ReadFile\<close> failed\<close>
  | WriteError \<comment> \<open>\<open>ioutil.WriteFile\<close> failed\<close>
  | JSONError \<comment> \<open>an error of \<open>json.Marshal\<close> or \<open>json.Unmarshal\<close>\<close>
  | NotFound string \<comment> \<open>\<open>errors.Errorf("not found: %s", k)\<close>\<close>
  | InvalidContent string error \<comment> \<open>\<open>errors.Errorf("invalid content in %s: %v", fileName, err)\<close>\<close>
  | CouldNotMarshal error \<comment> \<open>\<open>errors.Errorf("could not marshall json: %v", err)\<close>\<close>
  | CouldNotWrite error \<comment> \<open>\<open>errors.Errorf("could not write to file: %v", err)\<close>\<close>
  | Wrap error string \<comment> \<open>\<open>errors.Wrap(err, msg)\<close>\<close>

text \<open>A call either panics (nil pointer dereference, assignment to a nil map) or returns.\<close>

datatype 'a outcome = Panic | Return 'a

subsection \<open>Data model\<close>

record fileEntry =
  Value :: string
  NoExpire :: bool
  ExpiresOn :: time

text \<open>\<open>e.expired()\<close>, with the reading of \<open>time.Now()\<close> as first argument.\<close>

definition expired :: "time \<Rightarrow> fileEntry \<Rightarrow> bool" where
  "expired now e = (\<not> NoExpire e \<and> After now (ExpiresOn e))"

text \<open>
  A Go map is a reference that may be nil: \<open>None\<close> is the nil map, which reads as empty
  and panics on assignment. \<open>Seq\<close> is a \<open>uint64\<close>.
\<close>

record fileData =
  Version :: string
  Seq :: "64 word"
  Pairs :: "(string, fileEntry) fmap option"

definition newFileData :: fileData where
  "newFileData = \<lparr>Version = ''1'', Seq = 0, Pairs = Some fmempty\<rparr>"

text \<open>\<open>m[k]\<close> with the comma-ok form, and \<open>delete(m, k)\<close>; both accept the nil map.\<close>

definition map_index :: "(string, fileEntry) fmap option \<Rightarrow> string \<Rightarrow> fileEntry option" where
  "map_index m k = (case m of None \<Rightarrow> None | Some f \<Rightarrow> fmlookup f k)"

definition map_delete :: "(string, fileEntry) fmap option \<Rightarrow> string \<Rightarrow> (string, fileEntry) fmap option" where
  "map_delete m k = (case m of None \<Rightarrow> None | Some f \<Rightarrow> Some (fmdrop k f))"

subsection \<open>JSON documents\<close>

text \<open>
  A number literal is \<open>Some n\<close> when it is an unsigned decimal integer (the only literals
  \<open>strconv.ParseUint\<close> accepts) and \<open>None\<close> for every other literal (sign, fraction,
  exponent). A string holds its decoded bytes. An object keeps its members in order,
  duplicates included.
\<close>

datatype json =
    JNull
  | JBool bool
  | JNumber "nat option"
  | JString string
  | JArray "json list"
  | JObject "(string \<times> json) list"

subsection \<open>UTF-8, as \<open>unicode/utf8\<close> decodes it\<close>

definition byte :: "char \<Rightarrow> nat" where
  "byte c = of_char c"

definition between :: "nat \<Rightarrow> nat \<Rightarrow> char \<Rightarrow> bool" where
  "between lo hi c = (lo \<le> byte c \<and> byte c \<le> hi)"

text \<open>
  The width of the rune at the head of a string, following \<open>utf8.DecodeRuneInString\<close>:
  \<open>None\<close> stands for the result \<open>(RuneError, 1)\<close> (and \<open>(RuneError, 0)\<close> on the empty
  string). The table \<open>first\<close> and the accept ranges of the Go source are written out
  as byte ranges.
\<close>

fun rune_width :: "string \<Rightarrow> nat option" where
  "rune_width [] = None"
| "rune_width (c0 # cs) =
     (if byte c0 < 0x80 then Some 1
      else if byte c0 < 0xC2 \<or> 0xF4 < byte c0 then None
      else if byte c0 < 0xE0 then
        (case cs of
           c1 # _ \<Rightarrow> if between 0x80 0xBF c1 then Some 2 else None
         | _ \<Rightarrow> None)
      else if byte c0 < 0xF0 then
        (case cs of
           c1 # c2 # _ \<Rightarrow>
             if between (if byte c0 = 0xE0 then 0xA0 else 0x80)
                        (if byte c0 = 0xED then 0x9F else 0xBF) c1
                \<and> between 0x80 0xBF c2
             then Some 3 else None
         | _ \<Rightarrow> None)
      else
        (case cs of
           c1 # c2 # c3 # _ \<Rightarrow>
             if between (if byte c0 = 0xF0 then 0x90 else 0x80)
                        (if byte c0 = 0xF4 then 0x8F else 0xBF) c1
                \<and> between 0x80 0xBF c2 \<and> between 0x80 0xBF c3
             then Some 4 else None
         | _ \<Rightarrow> None))"

text \<open>U+FFFD, the replacement character, in UTF-8.\<close>

definition replacement :: string where
  "replacement = [CHR 0xEF, CHR 0xBF, CHR 0xBD]"

text \<open>
  What a Go string becomes when \<open>json.Marshal\<close> writes it as a JSON string and the
  text is read back: \<open>encoding/json\<close> replaces every byte that does not start a valid
  rune by U+FFFD ("String values encode as JSON strings coerced to valid UTF-8").
\<close>

fun coerce_utf8 :: "string \<Rightarrow> string" where
  "coerce_utf8 [] = []"
| "coerce_utf8 (c # cs) =
     (case rune_width (c # cs) of
        None \<Rightarrow> replacement @ coerce_utf8 cs
      | Some n \<Rightarrow> c # take (n - 1) cs @ coerce_utf8 (drop (n - 1) cs))"

fun valid_utf8 :: "string \<Rightarrow> bool" where
  "valid_utf8 [] = True"
| "valid_utf8 (c # cs) =
     (case rune_width (c # cs) of
        None \<Rightarrow> False
      | Some n \<Rightarrow> valid_utf8 (drop (n - 1) cs))"

subsection \<open>\<open>json.Marshal\<close> on \<open>fileData\<close>\<close>

text \<open>
  A struct is written as an object with one member per field, in the order of the
  declaration and under the name of the field's \<open>json\<close> tag: \<open>value\<close>, \<open>bool\<close> and
  \<open>expires_on\<close> for \<open>fileEntry\<close>. A \<open>time.Time\<close> is written by its own \<open>MarshalJSON\<close>,
  whose error makes the whole \<open>json.Marshal\<close> fail.
\<close>

definition marshal_fileEntry :: "time_codec \<Rightarrow> fileEntry \<Rightarrow> error + json" where
  "marshal_fileEntry tc e =
     (case format_time tc (ExpiresOn e) of
        None \<Rightarrow> Inl JSONError
      | Some s \<Rightarrow>
          Inr (JObject [(''value'', JString (coerce_utf8 (Value e))),
                        (''bool'', JBool (NoExpire e)),
                        (''expires_on'', JString s)]))"

text \<open>
  The members of a map, for the keys \<open>ks\<close> in the order given. A key is written like
  any other string, so it is coerced to valid UTF-8 too.
\<close>

fun marshal_members ::
  "time_codec \<Rightarrow> (string, fileEntry) fmap \<Rightarrow> string list \<Rightarrow> error + (string \<times> json) list" where
  "marshal_members tc m [] = Inr []"
| "marshal_members tc m (k # ks) =
     (case fmlookup m k of
        None \<Rightarrow> marshal_members tc m ks
      | Some e \<Rightarrow>
          (case marshal_fileEntry tc e of
             Inl err \<Rightarrow> Inl err
           | Inr j \<Rightarrow>
               (case marshal_members tc m ks of
                  Inl err \<Rightarrow> Inl err
                | Inr js \<Rightarrow> Inr ((coerce_utf8 k, j) # js))))"

text \<open>
  A nil map is written as \<open>null\<close>; any other map as an object whose keys are sorted
  as byte strings ("The map keys are sorted").
\<close>

definition marshal_Pairs ::
  "time_codec \<Rightarrow> (string, fileEntry) fmap option \<Rightarrow> error + json" where
  "marshal_Pairs tc p =
     (case p of
        None \<Rightarrow> Inr JNull
      | Some m \<Rightarrow>
          (case marshal_members tc m (sorted_list_of_fset (fmdom m)) of
             Inl err \<Rightarrow> Inl err
           | Inr js \<Rightarrow> Inr (JObject js)))"

definition Marshal :: "time_codec \<Rightarrow> fileData \<Rightarrow> error + json" where
  "Marshal tc d =
     (case marshal_Pairs tc (Pairs d) of
        Inl err \<Rightarrow> Inl err
      | Inr p \<Rightarrow>
          Inr (JObject [(''version'', JString (coerce_utf8 (Version d))),
                        (''seq'', JNumber (Some (unat (Seq d)))),
                        (''pairs'', p)]))"

subsection \<open>\<open>json.Unmarshal\<close> into \<open>*fileData\<close>\<close>

text \<open>
  The name of an object member selects a struct field by exact match, or else by a
  match under \<open>foldName\<close>: ASCII letters are upper-cased, and the two runes outside
  ASCII that Unicode folds to an ASCII letter are replaced by it (U+017F by \<open>S\<close>,
  U+212A by \<open>K\<close>). Other bytes are kept: no other rune folds into ASCII, so this does
  not change which names match the ASCII names of the fields.
\<close>

definition upper :: "char \<Rightarrow> char" where
  "upper c = (if between 0x61 0x7A c then char_of (byte c - 32) else c)"

fun foldName :: "string \<Rightarrow> string" where
  "foldName [] = []"
| "foldName (c # cs) =
     (if byte c < 0x80 then upper c # foldName cs
      else
        (case cs of
           [] \<Rightarrow> [c]
         | c1 # cs1 \<Rightarrow>
             if byte c = 0xC5 \<and> byte c1 = 0xBF then CHR ''S'' # foldName cs1
             else
               (case cs1 of
                  [] \<Rightarrow> c # foldName cs
                | c2 # cs2 \<Rightarrow>
                    if byte c = 0xE2 \<and> byte c1 = 0x84 \<and> byte c2 = 0xAA
                    then CHR ''K'' # foldName cs2
                    else c # foldName cs)))"

definition find_field :: "string list \<Rightarrow> string \<Rightarrow> string option" where
  "find_field names key =
     (if key \<in> set names then Some key
      else find (\<lambda>n. foldName n = foldName key) names)"

text \<open>
  Decoding one JSON value into a field that holds \<open>cur\<close>. \<open>null\<close> leaves a string, a
  number, a bool or a \<open>time.Time\<close> as it is; a value of the wrong kind is an error.
  \<open>json.Unmarshal\<close> goes on after some of these errors, but it returns an error in the
  end, and the caller then drops the value decoded so far.
\<close>

definition decode_string :: "json \<Rightarrow> string \<Rightarrow> error + string" where
  "decode_string j cur =
     (case j of JString s \<Rightarrow> Inr s | JNull \<Rightarrow> Inr cur | _ \<Rightarrow> Inl JSONError)"

definition decode_bool :: "json \<Rightarrow> bool \<Rightarrow> error + bool" where
  "decode_bool j cur =
     (case j of JBool b \<Rightarrow> Inr b | JNull \<Rightarrow> Inr cur | _ \<Rightarrow> Inl JSONError)"

definition decode_uint64 :: "json \<Rightarrow> 64 word \<Rightarrow> error + 64 word" where
  "decode_uint64 j cur =
     (case j of
        JNumber (Some n) \<Rightarrow> if n < 2 ^ 64 then Inr (of_nat n) else Inl JSONError
      | JNull \<Rightarrow> Inr cur
      | _ \<Rightarrow> Inl JSONError)"

definition decode_time :: "time_codec \<Rightarrow> json \<Rightarrow> time \<Rightarrow> error + time" where
  "decode_time tc j cur =
     (case j of
        JString s \<Rightarrow> (case parse_time tc s of None \<Rightarrow> Inl JSONError | Some t \<Rightarrow> Inr t)
      | JNull \<Rightarrow> Inr cur
      | _ \<Rightarrow> Inl JSONError)"

definition entry_member :: "time_codec \<Rightarrow> string \<Rightarrow> json \<Rightarrow> fileEntry \<Rightarrow> error + fileEntry" where
  "entry_member tc key j e =
     (case find_field [''value'', ''bool'', ''expires_on''] key of
        None \<Rightarrow> Inr e
      | Some f \<Rightarrow>
          if f = ''value'' then map_sum id (\<lambda>s. e\<lparr>Value := s\<rparr>) (decode_string j (Value e))
          else if f = ''bool'' then map_sum id (\<lambda>b. e\<lparr>NoExpire := b\<rparr>) (decode_bool j (NoExpire e))
          else map_sum id (\<lambda>t. e\<lparr>ExpiresOn := t\<rparr>) (decode_time tc j (ExpiresOn e)))"

fun entry_members :: "time_codec \<Rightarrow> (string \<times> json) list \<Rightarrow> fileEntry \<Rightarrow> error + fileEntry" where
  "entry_members tc [] e = Inr e"
| "entry_members tc ((key, j) # ms) e =
     (case entry_member tc key j e of
        Inl err \<Rightarrow> Inl err
      | Inr e' \<Rightarrow> entry_members tc ms e')"

definition decode_fileEntry :: "time_codec \<Rightarrow> json \<Rightarrow> fileEntry \<Rightarrow> error + fileEntry" where
  "decode_fileEntry tc j e =
     (case j of
        JObject ms \<Rightarrow> entry_members tc ms e
      | JNull \<Rightarrow> Inr e
      | _ \<Rightarrow> Inl JSONError)"

text \<open>The zero value of \<open>fileEntry\<close>, into which every element of the map is decoded.\<close>

definition zero_fileEntry :: fileEntry where
  "zero_fileEntry = \<lparr>Value = [], NoExpire = False, ExpiresOn = zero_time\<rparr>"

fun pairs_members ::
  "time_codec \<Rightarrow> (string \<times> json) list \<Rightarrow> (string, fileEntry) fmap \<Rightarrow> error + (string, fileEntry) fmap" where
  "pairs_members tc [] m = Inr m"
| "pairs_members tc ((key, j) # ms) m =
     (case decode_fileEntry tc j zero_fileEntry of
        Inl err \<Rightarrow> Inl err
      | Inr e \<Rightarrow> pairs_members tc ms (fmupd key e m))"

text \<open>
  \<open>null\<close> sets a map to nil; an object is decoded into the map that is there, or into a
  new one when the map is nil.
\<close>

definition decode_Pairs ::
  "time_codec \<Rightarrow> json \<Rightarrow> (string, fileEntry) fmap option \<Rightarrow> error + (string, fileEntry) fmap option" where
  "decode_Pairs tc j cur =
     (case j of
        JObject ms \<Rightarrow>
          map_sum id Some (pairs_members tc ms (case cur of None \<Rightarrow> fmempty | Some m \<Rightarrow> m))
      | JNull \<Rightarrow> Inr None
      | _ \<Rightarrow> Inl JSONError)"

definition data_member :: "time_codec \<Rightarrow> string \<Rightarrow> json \<Rightarrow> fileData \<Rightarrow> error + fileData" where
  "data_member tc key j d =
     (case find_field [''version'', ''seq'', ''pairs''] key of
        None \<Rightarrow> Inr d
      | Some f \<Rightarrow>
          if f = ''version'' then map_sum id (\<lambda>s. d\<lparr>Version := s\<rparr>) (decode_string j (Version d))
          else if f = ''seq'' then map_sum id (\<lambda>n. d\<lparr>Seq := n\<rparr>) (decode_uint64 j (Seq d))
          else map_sum id (\<lambda>p. d\<lparr>Pairs := p\<rparr>) (decode_Pairs tc j (Pairs d)))"

fun data_members :: "time_codec \<Rightarrow> (string \<times> json) list \<Rightarrow> fileData \<Rightarrow> error + fileData" where
  "data_members tc [] d = Inr d"
| "data_members tc ((key, j) # ms) d =
     (case data_member tc key j d of
        Inl err \<Rightarrow> Inl err
      | Inr d' \<Rightarrow> data_members tc ms d')"

text \<open>
  The bytes of a file: the text of a JSON document, or bytes that are not JSON.
\<close>

datatype content = Text json | Malformed string

text \<open>
  \<open>json.Unmarshal(data, &fileData)\<close>, where the pointer \<open>fileData\<close> points to \<open>d\<close>. The
  result is the pointer afterwards: "Unmarshal first handles the case of the JSON being
  the JSON literal null. In that case, Unmarshal sets the pointer to nil", here \<open>None\<close>.
\<close>

definition Unmarshal :: "time_codec \<Rightarrow> content \<Rightarrow> fileData \<Rightarrow> error + fileData option" where
  "Unmarshal tc c d =
     (case c of
        Malformed _ \<Rightarrow> Inl JSONError
      | Text j \<Rightarrow>
          (case j of
             JObject ms \<Rightarrow> map_sum id Some (data_members tc ms d)
           | JNull \<Rightarrow> Inr None
           | _ \<Rightarrow> Inl JSONError))"

subsection \<open>The file system\<close>

text \<open>
  \<open>ioutil.WriteFile\<close> opens the file with \<open>O_WRONLY|O_CREATE|O_TRUNC\<close>, writes the data
  and closes the file; it returns the first error of the three steps. So a write can
  fail in three ways:
  \<^item> the open fails (permissions, a missing directory): the file is as it was;
  \<^item> the write fails or is short (a full disk, an I/O error): the file has been
    truncated and holds the part of the data written so far, possibly nothing;
  \<^item> only the close fails: the file holds all the data.
\<close>

datatype write_fault = OpenFails | WriteFails string | CloseFails

text \<open>
  The files by path, the paths on which \<open>ioutil.ReadFile\<close> fails, and for each path on
  which \<open>ioutil.WriteFile\<close> fails, how it fails.
\<close>

record disk =
  files :: "string \<rightharpoonup> content"
  unreadable :: "string set"
  faults :: "string \<rightharpoonup> write_fault"

text \<open>The paths on which a write returns an error.\<close>

definition unwritable :: "disk \<Rightarrow> string set" where
  "unwritable dsk = dom (faults dsk)"

definition ReadFile :: "disk \<Rightarrow> string \<Rightarrow> error + content" where
  "ReadFile dsk name =
     (if name \<in> unreadable dsk then Inl ReadError
      else case files dsk name of None \<Rightarrow> Inl ReadError | Some c \<Rightarrow> Inr c)"

text \<open>
  The data that \<open>sync\<close> writes is the text of a JSON object. A part of that text that
  stops before the end is not JSON (the closing brace is missing), so the file that a
  failed write leaves with the bytes \<open>written\<close> is \<open>Malformed written\<close>.
\<close>

definition WriteFile :: "disk \<Rightarrow> string \<Rightarrow> content \<Rightarrow> disk \<times> error option" where
  "WriteFile dsk name c =
     (case faults dsk name of
        None \<Rightarrow> (dsk\<lparr>files := (files dsk)(name \<mapsto> c)\<rparr>, None)
      | Some OpenFails \<Rightarrow> (dsk, Some WriteError)
      | Some (WriteFails written) \<Rightarrow>
          (dsk\<lparr>files := (files dsk)(name \<mapsto> Malformed written)\<rparr>, Some WriteError)
      | Some CloseFails \<Rightarrow> (dsk\<lparr>files := (files dsk)(name \<mapsto> c)\<rparr>, Some WriteError))"

subsection \<open>Persistence: \<open>sync\<close> and \<open>newFileDataFromFile\<close>\<close>

definition sync :: "time_codec \<Rightarrow> fileData \<Rightarrow> string \<Rightarrow> disk \<Rightarrow> disk \<times> error option" where
  "sync tc d fileName dsk =
     (case Marshal tc d of
        Inl err \<Rightarrow> (dsk, Some (CouldNotMarshal err))
      | Inr jsonData \<Rightarrow>
          (case WriteFile dsk fileName (Text jsonData) of
             (dsk', Some err) \<Rightarrow> (dsk', Some (CouldNotWrite err))
           | (dsk', None) \<Rightarrow> (dsk', None)))"

text \<open>
  The result is the pair \<open>(*fileData, error)\<close> of the Go function, with \<open>None\<close> for nil,
  and the file system afterwards.
\<close>

definition newFileDataFromFile ::
  "time_codec \<Rightarrow> string \<Rightarrow> disk \<Rightarrow> (fileData option \<times> error option) \<times> disk" where
  "newFileDataFromFile tc fileName dsk =
     (case ReadFile dsk fileName of
        Inl err \<Rightarrow>
          (case sync tc newFileData fileName dsk of
             (dsk', res) \<Rightarrow> ((Some newFileData, res), dsk'))
      | Inr bytes \<Rightarrow>
          (case Unmarshal tc bytes newFileData of
             Inl err \<Rightarrow> ((None, Some (InvalidContent fileName err)), dsk)
           | Inr fd \<Rightarrow> ((fd, None), dsk)))"

subsection \<open>The store\<close>

text \<open>
  \<open>driver\<close> and \<open>parameters\<close> are the fields of the embedded \<open>Store\<close>; \<open>data\<close> is a pointer,
  \<open>None\<close> when nil.
\<close>

record FileStore =
  driver :: string
  parameters :: string
  path :: string
  data :: "fileData option"

definition NewFileStore ::
  "time_codec \<Rightarrow> string \<Rightarrow> disk \<Rightarrow> (FileStore option \<times> error option) \<times> disk" where
  "NewFileStore tc p dsk =
     (case newFileDataFromFile tc p dsk of
        ((fd, Some err), dsk') \<Rightarrow>
          ((None, Some (Wrap err ''can't read or create file store'')), dsk')
      | ((fd, None), dsk') \<Rightarrow>
          ((Some \<lparr>driver = ''file'', parameters = p, path = p, data = fd\<rparr>, None), dsk'))"

text \<open>
  \<open>fs.data.Pairs[k] = fileEntry{...}\<close> panics when \<open>fs.data\<close> is nil and when the map is
  nil; nothing has been changed at that point.
\<close>

definition Set ::
  "time_codec \<Rightarrow> time \<Rightarrow> FileStore \<Rightarrow> string \<Rightarrow> string \<Rightarrow> Duration \<Rightarrow> disk
     \<Rightarrow> (FileStore \<times> disk \<times> error option) outcome" where
  "Set tc now fs k v ttl dsk =
     (case data fs of
        None \<Rightarrow> Panic
      | Some d \<Rightarrow>
          (case Pairs d of
             None \<Rightarrow> Panic
           | Some m \<Rightarrow>
               (let d1 = d\<lparr>Pairs := Some (fmupd k \<lparr>Value = v, NoExpire = (ttl = 0),
                                                    ExpiresOn = Add now ttl\<rparr> m)\<rparr>;
                    d2 = d1\<lparr>Seq := Seq d1 + 1\<rparr>
                in case sync tc d2 (path fs) dsk of
                     (dsk', res) \<Rightarrow> Return (fs\<lparr>data := Some d2\<rparr>, dsk', res))))"

text \<open>
  \<open>val, ok := fs.data.Pairs[k]\<close> followed by \<open>!ok || val.expired()\<close>. The result is the
  pair \<open>(string, error)\<close>.
\<close>

definition Get :: "time \<Rightarrow> FileStore \<Rightarrow> string \<Rightarrow> (string \<times> error option) outcome" where
  "Get now fs k =
     (case data fs of
        None \<Rightarrow> Panic
      | Some d \<Rightarrow>
          (case map_index (Pairs d) k of
             None \<Rightarrow> Return ([], Some (NotFound k))
           | Some val \<Rightarrow>
               if expired now val then Return ([], Some (NotFound k))
               else Return (Value val, None)))"

definition Delete ::
  "time_codec \<Rightarrow> FileStore \<Rightarrow> string \<Rightarrow> disk \<Rightarrow> (FileStore \<times> disk \<times> error option) outcome" where
  "Delete tc fs k dsk =
     (case data fs of
        None \<Rightarrow> Panic
      | Some d \<Rightarrow>
          (let d1 = d\<lparr>Pairs := map_delete (Pairs d) k\<rparr>
           in case sync tc d1 (path fs) dsk of
                (dsk', res) \<Rightarrow> Return (fs\<lparr>data := Some d1\<rparr>, dsk', res)))"

text \<open>
  One call on the store, as a step on the pair of the store and the file system.
  \<open>Get\<close> assigns to nothing and calls nothing that writes, so its step returns both
  as they are.
\<close>

datatype call = CallSet string string Duration | CallGet string | CallDelete string

datatype reply = Err "error option" | Val string "error option"

definition step ::
  "time_codec \<Rightarrow> time \<Rightarrow> call \<Rightarrow> FileStore \<times> disk \<Rightarrow> ((FileStore \<times> disk) \<times> reply) outcome" where
  "step tc now c st =
     (case c of
        CallSet k v ttl \<Rightarrow>
          (case Set tc now (fst st) k v ttl (snd st) of
             Panic \<Rightarrow> Panic
           | Return (fs', dsk', res) \<Rightarrow> Return ((fs', dsk'), Err res))
      | CallGet k \<Rightarrow>
          (case Get now (fst st) k of
             Panic \<Rightarrow> Panic
           | Return (v, res) \<Rightarrow> Return (st, Val v res))
      | CallDelete k \<Rightarrow>
          (case Delete tc (fst st) k (snd st) of
             Panic \<Rightarrow> Panic
           | Return (fs', dsk', res) \<Rightarrow> Return ((fs', dsk'), Err res)))"

subsection \<open>A time codec to run the model on\<close>

text \<open>
  Concrete runs need some \<open>time_codec\<close>. This one writes an instant \<open>t \<ge> 0\<close> as \<open>t\<close>
  letters \<open>T\<close> and refuses negative instants; it stands in for RFC 3339 only where a
  run has to be evaluated.
\<close>

definition tally_codec :: time_codec where
  "tally_codec =
     \<lparr>format_time = (\<lambda>t. if 0 \<le> t then Some (replicate (nat t) CHR ''T'') else None),
      parse_time = (\<lambda>s. if list_all (\<lambda>c. c = CHR ''T'') s then Some (int (length s)) else None)\<rparr>"

definition empty_disk :: disk where
  "empty_disk = \<lparr>files = Map.empty, unreadable = {}, faults = Map.empty\<rparr>"

text \<open>A store with a value that never expires and a value that expired at instant 5.\<close>

definition demo_data :: fileData where
  "demo_data =
     \<lparr>Version = ''1'', Seq = 2,
      Pairs = Some (fmupd ''old'' \<lparr>Value = ''x'', NoExpire = False, ExpiresOn = 5\<rparr>
                   (fmupd ''a'' \<lparr>Value = ''hello'', NoExpire = True, ExpiresOn = 0\<rparr> fmempty))\<rparr>"

definition demo_store :: FileStore where
  "demo_store = \<lparr>driver = ''file'', parameters = ''db'', path = ''db'', data = Some demo_data\<rparr>"

text \<open>A store whose counter has reached the largest \<open>uint64\<close>.\<close>

definition full_store :: FileStore where
  "full_store =
     \<lparr>driver = ''file'', parameters = ''db'', path = ''db'',
      data = Some \<lparr>Version = ''1'', Seq = 18446744073709551615, Pairs = Some fmempty\<rparr>\<rparr>"



text \<open>What a call of \<open>Set\<close> or \<open>Delete\<close> left behind: the counter, and the error returned.\<close>

definition seq_after :: "(FileStore \<times> disk \<times> error option) outcome \<Rightarrow> 64 word option" where
  "seq_after r = (case r of Panic \<Rightarrow> None | Return (fs, _, _) \<Rightarrow> map_option Seq (data fs))"

definition error_after :: "(FileStore \<times> disk \<times> error option) outcome \<Rightarrow> error option option" where
  "error_after r = (case r of Panic \<Rightarrow> None | Return (_, _, res) \<Rightarrow> Some res)"

text \<open>
  Serializing a dataset and deserializing the result, as \<open>sync\<close> and then
  \<open>newFileDataFromFile\<close> do: \<open>json.Marshal\<close>, then \<open>json.Unmarshal\<close> into a fresh
  \<open>newFileData()\<close>.
\<close>

definition round_trip :: "time_codec \<Rightarrow> fileData \<Rightarrow> error + fileData option" where
  "round_trip tc d =
     (case Marshal tc d of
        Inl err \<Rightarrow> Inl err
      | Inr j \<Rightarrow> Unmarshal tc (Text j) newFileData)"

text \<open>A dataset with a value that is not valid UTF-8: the single byte \<open>0xFF\<close>.\<close>

definition binary_data :: fileData where
  "binary_data =
     \<lparr>Version = ''1'', Seq = 1,
      Pairs = Some (fmupd ''k'' \<lparr>Value = [CHR 0xFF], NoExpire = True, ExpiresOn = 0\<rparr> fmempty)\<rparr>"

text \<open>
  A dataset that \<open>encoding/json\<close> can carry as it is: the version, the keys and the
  values are valid UTF-8, and every \<open>ExpiresOn\<close> is an instant that \<open>time.Time\<close> writes
  and reads back.
\<close>

definition portable_entry :: "time_codec \<Rightarrow> string \<Rightarrow> fileEntry \<Rightarrow> bool" where
  "portable_entry tc k e =
     (valid_utf8 k \<and> valid_utf8 (Value e)
      \<and> (case format_time tc (ExpiresOn e) of
            None \<Rightarrow> False
          | Some s \<Rightarrow> parse_time tc s = Some (ExpiresOn e)))"

definition portable :: "time_codec \<Rightarrow> fileData \<Rightarrow> bool" where
  "portable tc d =
     (valid_utf8 (Version d)
      \<and> (case Pairs d of None \<Rightarrow> True | Some m \<Rightarrow> fmpred (portable_entry tc) m))"

text \<open>The JSON object that \<open>json.Marshal\<close> writes for an entry whose time has the text \<open>s\<close>.\<close>

definition entry_object :: "fileEntry \<Rightarrow> string \<Rightarrow> json" where
  "entry_object e s =
     JObject [(''value'', JString (coerce_utf8 (Value e))),
              (''bool'', JBool (NoExpire e)),
              (''expires_on'', JString s)]"

text \<open>A file system whose only file, at \<open>p\<close>, holds the JSON document \<open>j\<close>.\<close>

definition disk_with :: "string \<Rightarrow> json \<Rightarrow> disk" where
  "disk_with p j = \<lparr>files = [p \<mapsto> Text j], unreadable = {}, faults = Map.empty\<rparr>"

section \<open>Properties\<close>

subsection \<open>Reading: \<open>Get\<close>\<close>

text \<open>
  Claim C1. On a store that has a dataset, \<open>Get(k)\<close> returns the stored value when \<open>k\<close>
  is present and not expired. Otherwise it fails, and the error is the same value
  \<open>NotFound k\<close> whether \<open>k\<close> is absent or its entry has expired. An entry is expired
  exactly when it may expire and the clock is past \<open>ExpiresOn\<close>.
\<close>

theorem Get_value_or_NotFound:
  assumes "data fs = Some d"
  shows "(map_index (Pairs d) k = Some e \<and> \<not> expired now e \<longrightarrow>
            Get now fs k = Return (Value e, None))
       \<and> (map_index (Pairs d) k = None \<longrightarrow>
            Get now fs k = Return ([], Some (NotFound k)))
       \<and> (map_index (Pairs d) k = Some e \<and> expired now e \<longrightarrow>
            Get now fs k = Return ([], Some (NotFound k)))
       \<and> (expired now e \<longleftrightarrow> \<not> NoExpire e \<and> ExpiresOn e < now)"
  using assms by (simp add: Get_def expired_def After_def)

theorem Get_value_or_NotFound_witness:
  "data demo_store = Some demo_data
   \<and> Get 10 demo_store ''a'' = Return (''hello'', None)
   \<and> Get 10 demo_store ''zz'' = Return ([], Some (NotFound ''zz''))
   \<and> Get 10 demo_store ''old'' = Return ([], Some (NotFound ''old''))"
proof -
  have d: "data demo_store = Some demo_data"
    by (simp add: demo_store_def)
  have a: "map_index (Pairs demo_data) ''a'' = Some \<lparr>Value = ''hello'', NoExpire = True, ExpiresOn = 0\<rparr>"
    by (simp add: demo_data_def map_index_def)
  have z: "map_index (Pairs demo_data) ''zz'' = None"
    by (simp add: demo_data_def map_index_def)
  have old: "map_index (Pairs demo_data) ''old'' = Some \<lparr>Value = ''x'', NoExpire = False, ExpiresOn = 5\<rparr>"
    by (simp add: demo_data_def map_index_def)
  have "Get 10 demo_store ''a'' = Return (''hello'', None)"
    using Get_value_or_NotFound [OF d, where k = "''a''" and now = 10
        and e = "\<lparr>Value = ''hello'', NoExpire = True, ExpiresOn = 0\<rparr>"] a
    by (simp add: expired_def)
  moreover have "Get 10 demo_store ''zz'' = Return ([], Some (NotFound ''zz''))"
    using Get_value_or_NotFound [OF d, of "''zz''"] z by simp
  moreover have "Get 10 demo_store ''old'' = Return ([], Some (NotFound ''old''))"
    using Get_value_or_NotFound [OF d, where k = "''old''" and now = 10
        and e = "\<lparr>Value = ''x'', NoExpire = False, ExpiresOn = 5\<rparr>"] old
    by (simp add: expired_def After_def)
  ultimately show ?thesis using d by simp
qed

subsection \<open>What the operations return\<close>

text \<open>
  On a store with a dataset and a map, \<open>Set\<close> returns: the entry is stored, the counter
  is stepped, and the changed dataset is handed to \<open>sync\<close>, whose result is returned.
\<close>

lemma Set_Return:
  assumes "data fs = Some d" and "Pairs d = Some m"
  shows "Set tc now fs k v ttl dsk =
           Return (fs\<lparr>data := Some (d\<lparr>Pairs := Some (fmupd k \<lparr>Value = v, NoExpire = (ttl = 0),
                                                              ExpiresOn = now + sint ttl\<rparr> m),
                                      Seq := Seq d + 1\<rparr>)\<rparr>,
                   sync tc (d\<lparr>Pairs := Some (fmupd k \<lparr>Value = v, NoExpire = (ttl = 0),
                                                        ExpiresOn = now + sint ttl\<rparr> m),
                              Seq := Seq d + 1\<rparr>) (path fs) dsk)"
  using assms by (simp add: Set_def Add_def Let_def split: prod.splits)

lemma Delete_Return:
  assumes "data fs = Some d"
  shows "Delete tc fs k dsk =
           Return (fs\<lparr>data := Some (d\<lparr>Pairs := map_delete (Pairs d) k\<rparr>)\<rparr>,
                   sync tc (d\<lparr>Pairs := map_delete (Pairs d) k\<rparr>) (path fs) dsk)"
  using assms by (simp add: Delete_def Let_def split: prod.splits)

lemma Get_Return:
  assumes "data fs = Some d"
  shows "Get now fs k =
           (case map_index (Pairs d) k of
              None \<Rightarrow> Return ([], Some (NotFound k))
            | Some e \<Rightarrow> if expired now e then Return ([], Some (NotFound k))
                        else Return (Value e, None))"
  using assms by (simp add: Get_def)

subsection \<open>\<open>sync\<close> and the file system\<close>

lemma sync_unwritable:
  assumes "fileName \<in> unwritable dsk"
  shows "\<exists>dsk' err. sync tc d fileName dsk = (dsk', Some err)"
  using assms
  by (auto simp: sync_def WriteFile_def unwritable_def split: sum.splits write_fault.splits)

text \<open>
  What a failing \<open>sync\<close> leaves: no other file changes, and the file itself is as it
  was, or cut short, or holds the whole text (when only the close failed).
\<close>

lemma sync_failure_leaves:
  assumes "sync tc d fileName dsk = (dsk', Some err)"
  shows "unreadable dsk' = unreadable dsk \<and> faults dsk' = faults dsk
       \<and> (\<forall>other. other \<noteq> fileName \<longrightarrow> files dsk' other = files dsk other)
       \<and> (files dsk' fileName = files dsk fileName
          \<or> (\<exists>written. files dsk' fileName = Some (Malformed written))
          \<or> (\<exists>j. Marshal tc d = Inr j \<and> files dsk' fileName = Some (Text j)))"
  using assms
  by (auto simp: sync_def WriteFile_def split: sum.splits option.splits write_fault.splits)



lemma sync_success:
  assumes "Marshal tc d = Inr j" and "fileName \<notin> unwritable dsk"
  shows "sync tc d fileName dsk = (dsk\<lparr>files := (files dsk)(fileName \<mapsto> Text j)\<rparr>, None)"
  using assms by (simp add: sync_def WriteFile_def unwritable_def domIff)

lemma map_delete_absent:
  assumes "map_index p k = None"
  shows "map_delete p k = p"
proof (cases p)
  case None
  then show ?thesis by (simp add: map_delete_def)
next
  case (Some m)
  with assms have "fmlookup m k = None" by (simp add: map_index_def)
  then have "fmdrop k m = m" by (intro fmap_ext) simp
  with Some show ?thesis by (simp add: map_delete_def)
qed

lemma Marshal_demo_data: "\<exists>j. Marshal tally_codec demo_data = Inr j"
  by (simp add: Marshal_def marshal_Pairs_def demo_data_def sorted_list_of_fset.rep_eq
      marshal_fileEntry_def tally_codec_def)



subsection \<open>Writing with a time to live: \<open>Set\<close>\<close>

text \<open>
  Claim C2. \<open>Set(k, v, d)\<close> on a store with a dataset and a map stores the entry
  \<open>(v, d = 0, now + d)\<close>. With \<open>d = 0\<close> the entry never expires: \<open>Get(k)\<close> returns \<open>v\<close> at
  every instant. With \<open>d > 0\<close>, \<open>Get(k)\<close> returns \<open>v\<close> at every instant up to and
  including \<open>now + d\<close> and fails with \<open>NotFound\<close> at every later one. This holds
  whatever \<open>sync\<close> returned, since \<open>Get\<close> reads the dataset in memory.
\<close>

theorem Set_ttl_contract:
  assumes "data fs = Some d" and "Pairs d = Some m"
  shows "\<exists>fs' dsk' res d'.
           Set tc now fs k v ttl dsk = Return (fs', dsk', res)
         \<and> data fs' = Some d'
         \<and> map_index (Pairs d') k =
             Some \<lparr>Value = v, NoExpire = (ttl = 0), ExpiresOn = now + sint ttl\<rparr>
         \<and> (ttl = 0 \<longrightarrow> (\<forall>later. Get later fs' k = Return (v, None)))
         \<and> (0 < sint ttl \<longrightarrow>
              (\<forall>later. (later \<le> now + sint ttl \<longrightarrow> Get later fs' k = Return (v, None))
                     \<and> (now + sint ttl < later \<longrightarrow>
                          Get later fs' k = Return ([], Some (NotFound k)))))"
proof -
  let ?e = "\<lparr>Value = v, NoExpire = (ttl = 0), ExpiresOn = now + sint ttl\<rparr>"
  let ?d = "d\<lparr>Pairs := Some (fmupd k ?e m), Seq := Seq d + 1\<rparr>"
  let ?fs = "fs\<lparr>data := Some ?d\<rparr>"
  obtain dsk' res where s: "sync tc ?d (path fs) dsk = (dsk', res)"
    by (cases "sync tc ?d (path fs) dsk")
  have r: "Set tc now fs k v ttl dsk = Return (?fs, dsk', res)"
    using Set_Return [OF assms] s by simp
  have dd: "data ?fs = Some ?d" by simp
  have ix: "map_index (Pairs ?d) k = Some ?e"
    by (simp add: map_index_def)
  have g: "Get later ?fs k = (if expired later ?e then Return ([], Some (NotFound k)) else Return (v, None))" for later
    using Get_Return [OF dd, of later k] ix by simp
  have never: "ttl = 0 \<longrightarrow> (\<forall>later. Get later ?fs k = Return (v, None))"
  proof (intro impI allI)
    fix later assume "ttl = 0"
    then show "Get later ?fs k = Return (v, None)"
      using g [of later] by (simp add: expired_def)
  qed
  have nz: "0 < sint ttl \<Longrightarrow> ttl \<noteq> 0"
    by auto
  have until: "0 < sint ttl \<longrightarrow>
              (\<forall>later. (later \<le> now + sint ttl \<longrightarrow> Get later ?fs k = Return (v, None))
                     \<and> (now + sint ttl < later \<longrightarrow>
                          Get later ?fs k = Return ([], Some (NotFound k))))"
  proof (intro impI allI conjI)
    fix later assume "0 < sint ttl" and "later \<le> now + sint ttl"
    then show "Get later ?fs k = Return (v, None)"
      using g [of later] by (simp add: expired_def After_def)
  next
    fix later assume "0 < sint ttl" and "now + sint ttl < later"
    then show "Get later ?fs k = Return ([], Some (NotFound k))"
      using g [of later] nz by (simp add: expired_def After_def)
  qed
  show ?thesis
    using r dd ix never until by blast
qed

theorem Set_ttl_contract_witness:
  "data demo_store = Some demo_data \<and> Pairs demo_data \<noteq> None
   \<and> (\<exists>fs' dsk' res.
          Set tally_codec 100 demo_store ''k'' ''v'' 0 empty_disk = Return (fs', dsk', res)
        \<and> Get 1000000000 fs' ''k'' = Return (''v'', None))
   \<and> (\<exists>fs' dsk' res.
          Set tally_codec 100 demo_store ''k'' ''v'' 7 empty_disk = Return (fs', dsk', res)
        \<and> Get 107 fs' ''k'' = Return (''v'', None)
        \<and> Get 108 fs' ''k'' = Return ([], Some (NotFound ''k'')))"
proof -
  have d: "data demo_store = Some demo_data"
    by (simp add: demo_store_def)
  obtain m where p: "Pairs demo_data = Some m"
    by (simp add: demo_data_def)
  have s7: "sint (7 :: 64 word) = 7" by simp
  from Set_ttl_contract [OF d p, where tc = tally_codec and now = 100 and k = "''k''"
      and v = "''v''" and ttl = 0 and dsk = empty_disk]
  have a: "\<exists>fs' dsk' res.
          Set tally_codec 100 demo_store ''k'' ''v'' 0 empty_disk = Return (fs', dsk', res)
        \<and> Get 1000000000 fs' ''k'' = Return (''v'', None)"
    by auto
  from Set_ttl_contract [OF d p, where tc = tally_codec and now = 100 and k = "''k''"
      and v = "''v''" and ttl = 7 and dsk = empty_disk]
  obtain fs' dsk' res where
      r: "Set tally_codec 100 demo_store ''k'' ''v'' 7 empty_disk = Return (fs', dsk', res)"
    and g: "\<forall>later. (later \<le> 107 \<longrightarrow> Get later fs' ''k'' = Return (''v'', None))
                   \<and> (107 < later \<longrightarrow> Get later fs' ''k'' = Return ([], Some (NotFound ''k'')))"
    unfolding s7 by auto
  from g have "Get 107 fs' ''k'' = Return (''v'', None)"
    and "Get 108 fs' ''k'' = Return ([], Some (NotFound ''k''))"
    by simp_all
  with r have b: "\<exists>fs' dsk' res.
          Set tally_codec 100 demo_store ''k'' ''v'' 7 empty_disk = Return (fs', dsk', res)
        \<and> Get 107 fs' ''k'' = Return (''v'', None)
        \<and> Get 108 fs' ''k'' = Return ([], Some (NotFound ''k''))"
    by blast
  show ?thesis using d p a b by simp
qed

text \<open>
  Claim C10. With a negative duration, \<open>Set(k, v, d)\<close> stores an entry that may expire
  and whose \<open>ExpiresOn\<close> is \<open>now + d\<close>, before \<open>now\<close>; a \<open>Get(k)\<close> at \<open>now\<close> or later fails
  with \<open>NotFound\<close>.
\<close>

theorem Set_negative_ttl_is_expired:
  assumes "data fs = Some d" and "Pairs d = Some m" and "sint ttl < 0" and "now \<le> later"
  shows "\<exists>fs' dsk' res d'.
           Set tc now fs k v ttl dsk = Return (fs', dsk', res)
         \<and> data fs' = Some d'
         \<and> map_index (Pairs d') k =
             Some \<lparr>Value = v, NoExpire = False, ExpiresOn = now + sint ttl\<rparr>
         \<and> now + sint ttl < now
         \<and> Get later fs' k = Return ([], Some (NotFound k))"
proof -
  have nz: "ttl \<noteq> 0" using assms(3) by auto
  let ?e = "\<lparr>Value = v, NoExpire = False, ExpiresOn = now + sint ttl\<rparr>"
  let ?d = "d\<lparr>Pairs := Some (fmupd k ?e m), Seq := Seq d + 1\<rparr>"
  let ?fs = "fs\<lparr>data := Some ?d\<rparr>"
  obtain dsk' res where s: "sync tc ?d (path fs) dsk = (dsk', res)"
    by (cases "sync tc ?d (path fs) dsk")
  have r: "Set tc now fs k v ttl dsk = Return (?fs, dsk', res)"
    using Set_Return [OF assms(1,2), of tc now k v ttl dsk] s nz by simp
  have dd: "data ?fs = Some ?d" by simp
  have ix: "map_index (Pairs ?d) k = Some ?e"
    by (simp add: map_index_def)
  have g: "Get later ?fs k = Return ([], Some (NotFound k))"
    using Get_Return [OF dd, of later k] ix assms(3,4) by (simp add: expired_def After_def)
  show ?thesis
    using r dd ix g assms(3) by force
qed

theorem Set_negative_ttl_is_expired_witness:
  "data demo_store = Some demo_data \<and> Pairs demo_data \<noteq> None
   \<and> sint (- 5 :: 64 word) < 0 \<and> (100 :: int) \<le> 100
   \<and> (\<exists>fs' dsk' res.
          Set tally_codec 100 demo_store ''k'' ''v'' (- 5) empty_disk = Return (fs', dsk', res)
        \<and> map_option (\<lambda>d'. map_index (Pairs d') ''k'') (data fs') =
            Some (Some \<lparr>Value = ''v'', NoExpire = False, ExpiresOn = 95\<rparr>)
        \<and> Get 100 fs' ''k'' = Return ([], Some (NotFound ''k'')))"
proof -
  have d: "data demo_store = Some demo_data"
    by (simp add: demo_store_def)
  obtain m where p: "Pairs demo_data = Some m"
    by (simp add: demo_data_def)
  have n: "sint (- 5 :: 64 word) < 0" by simp
  have l: "(100 :: int) \<le> 100" by simp
  from Set_negative_ttl_is_expired [OF d p n l, where tc = tally_codec and k = "''k''"
      and v = "''v''" and dsk = empty_disk]
  have "\<exists>fs' dsk' res.
          Set tally_codec 100 demo_store ''k'' ''v'' (- 5) empty_disk = Return (fs', dsk', res)
        \<and> map_option (\<lambda>d'. map_index (Pairs d') ''k'') (data fs') =
            Some (Some \<lparr>Value = ''v'', NoExpire = False, ExpiresOn = 95\<rparr>)
        \<and> Get 100 fs' ''k'' = Return ([], Some (NotFound ''k''))"
    by auto
  then show ?thesis using d p n by simp
qed

subsection \<open>Removing: \<open>Delete\<close>\<close>

text \<open>
  Claim C5. \<open>Delete(k)\<close> of a key that is not in the dataset leaves the store as it is
  and still runs \<open>sync\<close> on the unchanged dataset; what it returns is what that \<open>sync\<close>
  returns, so the absent key is no error: the result is nil once the dataset is
  marshalled and written, and the file then holds it. A \<open>Get(k)\<close> afterwards fails with
  \<open>NotFound\<close>.
\<close>

theorem Delete_absent_key:
  assumes "data fs = Some d" and "map_index (Pairs d) k = None"
  shows "\<exists>dsk' res.
           Delete tc fs k dsk = Return (fs, dsk', res)
         \<and> sync tc d (path fs) dsk = (dsk', res)
         \<and> (\<forall>j. Marshal tc d = Inr j \<and> path fs \<notin> unwritable dsk \<longrightarrow>
                res = None \<and> files dsk' (path fs) = Some (Text j))
         \<and> (\<forall>now. Get now fs k = Return ([], Some (NotFound k)))"
proof -
  obtain dsk' res where s: "sync tc d (path fs) dsk = (dsk', res)"
    by (cases "sync tc d (path fs) dsk")
  have same: "d\<lparr>Pairs := map_delete (Pairs d) k\<rparr> = d"
    using map_delete_absent [OF assms(2)] by simp
  have "fs\<lparr>data := Some d\<rparr> = fs"
    using assms(1) by simp
  then have r: "Delete tc fs k dsk = Return (fs, dsk', res)"
    using Delete_Return [OF assms(1), of tc k dsk] same s by simp
  have w: "\<forall>j. Marshal tc d = Inr j \<and> path fs \<notin> unwritable dsk \<longrightarrow>
                res = None \<and> files dsk' (path fs) = Some (Text j)"
  proof (intro allI impI)
    fix j assume "Marshal tc d = Inr j \<and> path fs \<notin> unwritable dsk"
    then have "sync tc d (path fs) dsk = (dsk\<lparr>files := (files dsk)(path fs \<mapsto> Text j)\<rparr>, None)"
      by (simp add: sync_success)
    with s show "res = None \<and> files dsk' (path fs) = Some (Text j)"
      by auto
  qed
  have g: "\<forall>now. Get now fs k = Return ([], Some (NotFound k))"
    using Get_Return [OF assms(1)] assms(2) by simp
  show ?thesis using r s w g by blast
qed

theorem Delete_absent_key_witness:
  "data demo_store = Some demo_data \<and> map_index (Pairs demo_data) ''zz'' = None
   \<and> (\<exists>dsk'. Delete tally_codec demo_store ''zz'' empty_disk = Return (demo_store, dsk', None)
            \<and> files dsk' ''db'' \<noteq> None)
   \<and> Get 0 demo_store ''zz'' = Return ([], Some (NotFound ''zz''))"
proof -
  have d: "data demo_store = Some demo_data"
    by (simp add: demo_store_def)
  have z: "map_index (Pairs demo_data) ''zz'' = None"
    by (simp add: demo_data_def map_index_def)
  obtain j where j: "Marshal tally_codec demo_data = Inr j"
    using Marshal_demo_data by blast
  have w: "path demo_store \<notin> unwritable empty_disk" and p: "path demo_store = ''db''"
    by (simp_all add: empty_disk_def unwritable_def demo_store_def)
  from Delete_absent_key [OF d z, of tally_codec empty_disk]
  obtain dsk' res where r: "Delete tally_codec demo_store ''zz'' empty_disk = Return (demo_store, dsk', res)"
    and ok: "\<forall>j. Marshal tally_codec demo_data = Inr j \<and> path demo_store \<notin> unwritable empty_disk \<longrightarrow>
                res = None \<and> files dsk' (path demo_store) = Some (Text j)"
    and g: "\<forall>now. Get now demo_store ''zz'' = Return ([], Some (NotFound ''zz''))"
    by blast
  from ok j w p have "res = None" and "files dsk' ''db'' \<noteq> None" by auto
  with r g d z show ?thesis by auto
qed

subsection \<open>A failing \<open>sync\<close>\<close>



subsection \<open>Calls as steps\<close>

lemma step_Get:
  assumes "step tc now (CallGet k) (fs, dsk) = Return ((fs', dsk'), r)"
  shows "fs' = fs \<and> dsk' = dsk"
  using assms by (auto simp: step_def split: outcome.splits)

lemma step_data:
  assumes "step tc now c (fs, dsk) = Return ((fs', dsk'), r)"
  obtains d where "data fs = Some d"
  using assms
  by (cases c; cases "data fs")
    (auto simp: step_def Set_def Get_def Delete_def split: outcome.splits)

lemma step_Seq:
  assumes "step tc now c (fs, dsk) = Return ((fs', dsk'), r)" and "data fs = Some d"
  shows "\<exists>d'. data fs' = Some d'
            \<and> Seq d' = (case c of CallSet _ _ _ \<Rightarrow> Seq d + 1 | _ \<Rightarrow> Seq d)"
proof (cases c)
  case (CallSet k v ttl)
  with assms obtain m where m: "Pairs d = Some m"
    by (cases "Pairs d") (auto simp: step_def Set_def)
  show ?thesis
    using assms(1) CallSet Set_Return [OF assms(2) m, of tc now k v ttl dsk]
    by (auto simp: step_def split: prod.splits)
next
  case (CallGet k)
  with assms step_Get [of tc now k fs dsk fs' dsk' r] show ?thesis by simp
next
  case (CallDelete k)
  show ?thesis
    using assms(1) CallDelete Delete_Return [OF assms(2), of tc k dsk]
    by (auto simp: step_def split: prod.splits)
qed

lemma uint64_wraps: "(18446744073709551616 :: 64 word) = 0"
  by (simp add: word_unat_eq_iff)

lemma map_index_delete_other:
  assumes "k' \<noteq> k"
  shows "map_index (map_delete p k') k = map_index p k"
  using assms by (cases p) (simp_all add: map_index_def map_delete_def)

lemma step_keeps_other_keys:
  assumes "step tc now c (fs, dsk) = Return ((fs', dsk'), r)" and "data fs = Some d"
    and "c \<noteq> CallDelete k" and "\<forall>v ttl. c \<noteq> CallSet k v ttl"
  shows "\<exists>d'. data fs' = Some d' \<and> map_index (Pairs d') k = map_index (Pairs d) k"
proof (cases c)
  case (CallSet k' v ttl)
  with assms(4) have ne: "k' \<noteq> k" by auto
  from CallSet assms obtain m where m: "Pairs d = Some m"
    by (cases "Pairs d") (auto simp: step_def Set_def)
  show ?thesis
    using assms(1) CallSet ne Set_Return [OF assms(2) m, of tc now k' v ttl dsk] m
    by (auto simp: step_def map_index_def split: prod.splits)
next
  case (CallGet k')
  with assms step_Get [of tc now k' fs dsk fs' dsk' r] show ?thesis by simp
next
  case (CallDelete k')
  with assms(3) have ne: "k' \<noteq> k" by auto
  from assms(1) CallDelete Delete_Return [OF assms(2), of tc k' dsk]
  have "fs' = fs\<lparr>data := Some (d\<lparr>Pairs := map_delete (Pairs d) k'\<rparr>)\<rparr>"
    by (auto simp: step_def split: prod.splits)
  then show ?thesis
    by (simp add: map_index_delete_other [OF ne])
qed

lemma step_Set_returns:
  assumes "data fs = Some d" and "Pairs d = Some m"
  shows "\<exists>fs' dsk' res. step tc now (CallSet k v ttl) (fs, dsk) = Return ((fs', dsk'), Err res)"
proof -
  obtain fs' dsk' res where "Set tc now fs k v ttl dsk = Return (fs', dsk', res)"
    using Set_Return [OF assms, of tc now k v ttl dsk] by (metis prod.collapse)
  then show ?thesis by (simp add: step_def)
qed

lemma step_Delete_returns:
  assumes "data fs = Some d"
  shows "\<exists>fs' dsk' res. step tc now (CallDelete k) (fs, dsk) = Return ((fs', dsk'), Err res)"
proof -
  obtain fs' dsk' res where "Delete tc fs k dsk = Return (fs', dsk', res)"
    using Delete_Return [OF assms, of tc k dsk] by (metis prod.collapse)
  then show ?thesis by (simp add: step_def)
qed

subsection \<open>\<open>Get\<close> changes nothing\<close>

text \<open>
  Claim C8. A step of \<open>Get(k)\<close> returns the store and the file system it was given, and
  on a store with a dataset it does return. An entry for \<open>k\<close>, expired or not, is still
  in the map after every call that returns, unless the call is \<open>Delete(k)\<close> or a \<open>Set\<close> on
  the same key \<open>k\<close>.
\<close>

theorem Get_changes_nothing:
  "(step tc now (CallGet k) (fs, dsk) = Return ((fs', dsk'), r) \<longrightarrow> fs' = fs \<and> dsk' = dsk)
   \<and> (data fs \<noteq> None \<longrightarrow>
        (\<exists>v res. Get now fs k = Return (v, res)
                \<and> step tc now (CallGet k) (fs, dsk) = Return ((fs, dsk), Val v res)))
   \<and> (step tc now c (fs, dsk) = Return ((fs', dsk'), r) \<and> data fs = Some d
        \<and> map_index (Pairs d) k = Some e
        \<and> c \<noteq> CallDelete k \<and> (\<forall>v ttl. c \<noteq> CallSet k v ttl) \<longrightarrow>
        (\<exists>d'. data fs' = Some d' \<and> map_index (Pairs d') k = Some e))"
proof (intro conjI impI)
  assume "step tc now (CallGet k) (fs, dsk) = Return ((fs', dsk'), r)"
  then show "fs' = fs" and "dsk' = dsk"
    using step_Get by blast+
next
  assume "data fs \<noteq> None"
  then obtain d0 where "data fs = Some d0" by auto
  then show "\<exists>v res. Get now fs k = Return (v, res)
                \<and> step tc now (CallGet k) (fs, dsk) = Return ((fs, dsk), Val v res)"
    by (auto simp: step_def Get_def split: option.splits)
next
  assume a: "step tc now c (fs, dsk) = Return ((fs', dsk'), r) \<and> data fs = Some d
        \<and> map_index (Pairs d) k = Some e
        \<and> c \<noteq> CallDelete k \<and> (\<forall>v ttl. c \<noteq> CallSet k v ttl)"
  then show "\<exists>d'. data fs' = Some d' \<and> map_index (Pairs d') k = Some e"
    using step_keeps_other_keys [of tc now c fs dsk fs' dsk' r d k] by auto
qed

theorem Get_changes_nothing_witness:
  "step tally_codec 10 (CallGet ''old'') (demo_store, empty_disk)
     = Return ((demo_store, empty_disk), Val [] (Some (NotFound ''old'')))
   \<and> data demo_store = Some demo_data
   \<and> map_index (Pairs demo_data) ''old'' = Some \<lparr>Value = ''x'', NoExpire = False, ExpiresOn = 5\<rparr>
   \<and> expired 10 \<lparr>Value = ''x'', NoExpire = False, ExpiresOn = 5\<rparr>
   \<and> (\<exists>fs' dsk' r d'.
         step tally_codec 10 (CallDelete ''a'') (demo_store, empty_disk) = Return ((fs', dsk'), r)
       \<and> data fs' = Some d'
       \<and> map_index (Pairs d') ''old'' = Some \<lparr>Value = ''x'', NoExpire = False, ExpiresOn = 5\<rparr>)"
proof -
  let ?e = "\<lparr>Value = ''x'', NoExpire = False, ExpiresOn = 5\<rparr>"
  have d: "data demo_store = Some demo_data"
    by (simp add: demo_store_def)
  have old: "map_index (Pairs demo_data) ''old'' = Some ?e"
    by (simp add: demo_data_def map_index_def)
  have ex: "expired 10 ?e"
    by (simp add: expired_def After_def)
  note T = Get_changes_nothing [where tc = tally_codec and now = 10 and fs = demo_store
      and dsk = empty_disk and k = "''old''" and d = demo_data and e = ?e]
  have g: "Get 10 demo_store ''old'' = Return ([], Some (NotFound ''old''))"
    using Get_Return [OF d, of 10 "''old''"] old ex by simp
  from T [where c = "CallGet ''old''" and fs' = demo_store and dsk' = empty_disk
      and r = "Val [] (Some (NotFound ''old''))"] d g
  have a: "step tally_codec 10 (CallGet ''old'') (demo_store, empty_disk)
     = Return ((demo_store, empty_disk), Val [] (Some (NotFound ''old'')))"
    by auto
  obtain fs' dsk' res where
    del: "Delete tally_codec demo_store ''a'' empty_disk = Return (fs', dsk', res)"
    using Delete_Return [OF d] by (metis prod.collapse)
  then have st: "step tally_codec 10 (CallDelete ''a'') (demo_store, empty_disk)
      = Return ((fs', dsk'), Err res)"
    by (simp add: step_def)
  from T [where c = "CallDelete ''a''" and fs' = fs' and dsk' = dsk' and r = "Err res"] st d old
  have "\<exists>d'. data fs' = Some d' \<and> map_index (Pairs d') ''old'' = Some ?e"
    by simp
  with st have b: "\<exists>fs' dsk' r d'.
         step tally_codec 10 (CallDelete ''a'') (demo_store, empty_disk) = Return ((fs', dsk'), r)
       \<and> data fs' = Some d' \<and> map_index (Pairs d') ''old'' = Some ?e"
    by blast
  show ?thesis using a d old ex b by simp
qed

subsection \<open>The counter \<open>Seq\<close>\<close>

text \<open>
  Claim C6, as stated, fails where the \<open>uint64\<close> wraps: on a store whose counter is
  \<open>2^64 - 1\<close>, a \<open>Set\<close> that succeeds leaves the counter at \<open>0\<close>, which is smaller.
\<close>

theorem Seq_wraps_to_zero:
  "map_option Seq (data full_store) = Some 18446744073709551615
   \<and> error_after (Set tally_codec 0 full_store ''k'' ''v'' 0 empty_disk) = Some None
   \<and> seq_after (Set tally_codec 0 full_store ''k'' ''v'' 0 empty_disk) = Some 0
   \<and> (0 :: 64 word) < 18446744073709551615"
proof -
  let ?d = "\<lparr>Version = ''1'', Seq = 18446744073709551615 :: 64 word, Pairs = Some fmempty\<rparr>"
  have d: "data full_store = Some ?d" and p: "Pairs ?d = Some fmempty"
    by (simp_all add: full_store_def)
  let ?d2 = "\<lparr>Version = ''1'', Seq = 0 :: 64 word,
              Pairs = Some (fmupd ''k'' \<lparr>Value = ''v'', NoExpire = True, ExpiresOn = 0\<rparr> fmempty)\<rparr>"
  have m: "\<exists>j. Marshal tally_codec ?d2 = Inr j"
    by (simp add: Marshal_def marshal_Pairs_def sorted_list_of_fset.rep_eq
        marshal_fileEntry_def tally_codec_def)
  have w: "path full_store \<notin> unwritable empty_disk"
    by (simp add: empty_disk_def unwritable_def)
  obtain dsk' where sy: "sync tally_codec ?d2 (path full_store) empty_disk = (dsk', None)"
    using m w by (auto simp: sync_success)
  have "Set tally_codec 0 full_store ''k'' ''v'' 0 empty_disk
          = Return (full_store\<lparr>data := Some ?d2\<rparr>, dsk', None)"
    using Set_Return [OF d p, of tally_codec 0 "''k''" "''v''" 0 empty_disk] sy
    by (simp add: uint64_wraps)
  then show ?thesis
    using d by (simp add: seq_after_def error_after_def)
qed

text \<open>
  Claim C6, amended. Every \<open>Set\<close> that returns adds one to the counter modulo \<open>2^64\<close>,
  whether its \<open>sync\<close> succeeded or not; \<open>Delete\<close> and \<open>Get\<close> leave the counter as it is.
  So the counter does not decrease across a call as long as it is below \<open>2^64 - 1\<close>.
\<close>

theorem Seq_stepped_by_Set_only:
  assumes "step tc now c (fs, dsk) = Return ((fs', dsk'), r)" and "data fs = Some d"
  shows "\<exists>d'. data fs' = Some d'
      \<and> Seq d' = (case c of CallSet _ _ _ \<Rightarrow> Seq d + 1 | _ \<Rightarrow> Seq d)
      \<and> unat (Seq d') = (case c of CallSet _ _ _ \<Rightarrow> (unat (Seq d) + 1) mod 2 ^ 64
                                  | _ \<Rightarrow> unat (Seq d))
      \<and> (unat (Seq d) < 2 ^ 64 - 1 \<longrightarrow> Seq d \<le> Seq d')"
proof -
  from step_Seq [OF assms] obtain d' where d': "data fs' = Some d'"
    and s: "Seq d' = (case c of CallSet _ _ _ \<Rightarrow> Seq d + 1 | _ \<Rightarrow> Seq d)"
    by blast
  have u: "unat (Seq d + 1) = (unat (Seq d) + 1) mod 2 ^ 64"
    by (simp add: unat_word_ariths)
  have le: "unat (Seq d) < 2 ^ 64 - 1 \<Longrightarrow> Seq d \<le> Seq d + 1"
    by (simp add: word_le_nat_alt u)
  show ?thesis
    using d' s u le by (cases c) auto
qed

theorem Seq_stepped_by_Set_only_witness:
  "data demo_store = Some demo_data \<and> Seq demo_data = 2
   \<and> (\<exists>fs' dsk' r d'.
         step tally_codec 100 (CallSet ''k'' ''v'' 0) (demo_store, empty_disk) = Return ((fs', dsk'), r)
       \<and> data fs' = Some d' \<and> Seq d' = 3)
   \<and> (\<exists>fs' dsk' r d'.
         step tally_codec 100 (CallDelete ''a'') (demo_store, empty_disk) = Return ((fs', dsk'), r)
       \<and> data fs' = Some d' \<and> Seq d' = 2)"
proof -
  have d: "data demo_store = Some demo_data"
    by (simp add: demo_store_def)
  have q: "Seq demo_data = 2"
    by (simp add: demo_data_def)
  obtain m where p: "Pairs demo_data = Some m"
    by (simp add: demo_data_def)
  obtain fs1 dsk1 r1 where
    s: "step tally_codec 100 (CallSet ''k'' ''v'' 0) (demo_store, empty_disk) = Return ((fs1, dsk1), r1)"
    using step_Set_returns [OF d p] by blast
  from Seq_stepped_by_Set_only [OF s d] q
  have a: "\<exists>d'. data fs1 = Some d' \<and> Seq d' = 3"
    by auto
  obtain fs2 dsk2 r2 where
    t: "step tally_codec 100 (CallDelete ''a'') (demo_store, empty_disk) = Return ((fs2, dsk2), r2)"
    using step_Delete_returns [OF d] by blast
  from Seq_stepped_by_Set_only [OF t d] q
  have b: "\<exists>d'. data fs2 = Some d' \<and> Seq d' = 2"
    by auto
  show ?thesis using d q s a t b by blast
qed


subsection \<open>Serializing and deserializing\<close>

text \<open>
  The round trip is proved field by field: a string that is valid UTF-8 is written as
  it is, a \<open>uint64\<close> is read back from its decimal literal, an entry from its object,
  and the map from the members written for its sorted keys.
\<close>

lemma rune_width_pos:
  assumes "rune_width s = Some n"
  shows "0 < n"
  using assms by (cases s) (auto split: if_splits list.splits)

lemma coerce_valid_utf8:
  assumes "valid_utf8 s"
  shows "coerce_utf8 s = s"
  using assms
proof (induction s rule: valid_utf8.induct)
  case 1
  then show ?case by simp
next
  case (2 c cs)
  then obtain n where n: "rune_width (c # cs) = Some n"
    by (cases "rune_width (c # cs)") auto
  with 2 have "coerce_utf8 (drop (n - 1) cs) = drop (n - 1) cs"
    by simp
  with n show ?case by simp
qed

lemma find_field_exact:
  assumes "key \<in> set names"
  shows "find_field names key = Some key"
  using assms by (simp add: find_field_def)

lemma decode_entry_object:
  assumes "parse_time tc s = Some t"
  shows "decode_fileEntry tc (JObject [(''value'', JString v), (''bool'', JBool b),
                                       (''expires_on'', JString s)]) e0
         = Inr \<lparr>Value = v, NoExpire = b, ExpiresOn = t\<rparr>"
  using assms
  by (simp add: decode_fileEntry_def entry_member_def find_field_exact
      decode_string_def decode_bool_def decode_time_def)

lemma marshal_portable_entry:
  assumes "portable_entry tc k e"
  shows "\<exists>s. marshal_fileEntry tc e = Inr (JObject [(''value'', JString (Value e)),
                  (''bool'', JBool (NoExpire e)), (''expires_on'', JString s)])
            \<and> parse_time tc s = Some (ExpiresOn e)"
  using assms
  by (auto simp: portable_entry_def marshal_fileEntry_def coerce_valid_utf8 split: option.splits)

lemma round_trip_entry:
  assumes "portable_entry tc k e"
  shows "\<exists>j. marshal_fileEntry tc e = Inr j \<and> decode_fileEntry tc j e0 = Inr e"
proof -
  from marshal_portable_entry [OF assms] obtain s where
    m: "marshal_fileEntry tc e = Inr (JObject [(''value'', JString (Value e)),
                  (''bool'', JBool (NoExpire e)), (''expires_on'', JString s)])"
    and p: "parse_time tc s = Some (ExpiresOn e)"
    by blast
  show ?thesis
    using m decode_entry_object [OF p] by simp
qed

text \<open>
  Decoding the members written for the keys \<open>ks\<close> into a map \<open>acc\<close> gives \<open>acc\<close>,
  overridden by the entries of \<open>m\<close> at those keys.
\<close>

lemma round_trip_members:
  assumes "\<forall>k \<in> set ks. \<forall>e. fmlookup m k = Some e \<longrightarrow> portable_entry tc k e"
  shows "\<exists>js. marshal_members tc m ks = Inr js
            \<and> (\<forall>acc. \<exists>m'. pairs_members tc js acc = Inr m'
                  \<and> (\<forall>x. fmlookup m' x =
                        (if x \<in> set ks \<and> fmlookup m x \<noteq> None then fmlookup m x
                         else fmlookup acc x)))"
  using assms
proof (induction ks)
  case Nil
  then show ?case by simp
next
  case (Cons k ks)
  then obtain js where js: "marshal_members tc m ks = Inr js"
    and rest: "\<And>acc. \<exists>m'. pairs_members tc js acc = Inr m'
                  \<and> (\<forall>x. fmlookup m' x =
                        (if x \<in> set ks \<and> fmlookup m x \<noteq> None then fmlookup m x
                         else fmlookup acc x))"
    by auto
  show ?case
  proof (cases "fmlookup m k")
    case None
    have "\<exists>m'. pairs_members tc js acc = Inr m'
                  \<and> (\<forall>x. fmlookup m' x =
                        (if x \<in> set (k # ks) \<and> fmlookup m x \<noteq> None then fmlookup m x
                         else fmlookup acc x))" for acc
    proof -
      from rest [of acc] obtain m' where
        m': "pairs_members tc js acc = Inr m'"
        and l: "\<forall>x. fmlookup m' x =
                        (if x \<in> set ks \<and> fmlookup m x \<noteq> None then fmlookup m x
                         else fmlookup acc x)"
        by blast
      have "\<forall>x. fmlookup m' x =
                        (if x \<in> set (k # ks) \<and> fmlookup m x \<noteq> None then fmlookup m x
                         else fmlookup acc x)"
        using l None by auto
      with m' show ?thesis by blast
    qed
    moreover have "marshal_members tc m (k # ks) = Inr js"
      using None js by simp
    ultimately show ?thesis by blast
  next
    case (Some e)
    with Cons.prems have pe: "portable_entry tc k e" by simp
    then have vk: "coerce_utf8 k = k"
      by (simp add: portable_entry_def coerce_valid_utf8)
    from round_trip_entry [OF pe, of zero_fileEntry] obtain j where
      j: "marshal_fileEntry tc e = Inr j" and dj: "decode_fileEntry tc j zero_fileEntry = Inr e"
      by blast
    have mm: "marshal_members tc m (k # ks) = Inr ((k, j) # js)"
      using Some j js vk by simp
    have "\<exists>m'. pairs_members tc ((k, j) # js) acc = Inr m'
                  \<and> (\<forall>x. fmlookup m' x =
                        (if x \<in> set (k # ks) \<and> fmlookup m x \<noteq> None then fmlookup m x
                         else fmlookup acc x))" for acc
    proof -
      from rest [of "fmupd k e acc"] obtain m' where
        m': "pairs_members tc js (fmupd k e acc) = Inr m'"
        and l: "\<forall>x. fmlookup m' x =
                        (if x \<in> set ks \<and> fmlookup m x \<noteq> None then fmlookup m x
                         else fmlookup (fmupd k e acc) x)"
        by blast
      have "pairs_members tc ((k, j) # js) acc = Inr m'"
        using dj m' by simp
      moreover have "\<forall>x. fmlookup m' x =
                        (if x \<in> set (k # ks) \<and> fmlookup m x \<noteq> None then fmlookup m x
                         else fmlookup acc x)"
        using l Some by auto
      ultimately show ?thesis by blast
    qed
    with mm show ?thesis by blast
  qed
qed

lemma round_trip_Pairs:
  assumes "case p of None \<Rightarrow> True | Some m \<Rightarrow> fmpred (portable_entry tc) m"
  shows "\<exists>j. marshal_Pairs tc p = Inr j \<and> decode_Pairs tc j (Some fmempty) = Inr p"
proof (cases p)
  case None
  then show ?thesis
    by (simp add: marshal_Pairs_def decode_Pairs_def)
next
  case (Some m)
  let ?ks = "sorted_list_of_fset (fmdom m)"
  from Some assms have "\<forall>k \<in> set ?ks. \<forall>e. fmlookup m k = Some e \<longrightarrow> portable_entry tc k e"
    by (auto simp: fmpred_iff)
  from round_trip_members [OF this] obtain js m' where
    js: "marshal_members tc m ?ks = Inr js"
    and m': "pairs_members tc js fmempty = Inr m'"
    and l: "\<forall>x. fmlookup m' x =
                        (if x \<in> set ?ks \<and> fmlookup m x \<noteq> None then fmlookup m x
                         else fmlookup fmempty x)"
    by blast
  have "m' = m"
  proof (rule fmap_ext)
    fix x show "fmlookup m' x = fmlookup m x"
      using l by (cases "fmlookup m x") (auto dest: fmdomI)
  qed
  with Some js m' show ?thesis
    by (simp add: marshal_Pairs_def decode_Pairs_def)
qed

lemma round_trip_uint64: "decode_uint64 (JNumber (Some (unat (w :: 64 word)))) cur = Inr w"
proof -
  have "unat w < 2 ^ 64"
    using unsigned_less [of w, where ?'a = nat] by simp
  then show ?thesis by (simp add: decode_uint64_def)
qed

lemma round_trip_portable:
  assumes "portable tc d"
  shows "round_trip tc d = Inr (Some d)"
proof -
  from assms have v: "coerce_utf8 (Version d) = Version d"
    by (simp add: portable_def coerce_valid_utf8)
  from assms obtain j where j: "marshal_Pairs tc (Pairs d) = Inr j"
    and dj: "decode_Pairs tc j (Some fmempty) = Inr (Pairs d)"
    using round_trip_Pairs [where p = "Pairs d" and tc = tc] by (auto simp: portable_def)
  have m: "Marshal tc d = Inr (JObject [(''version'', JString (Version d)),
                        (''seq'', JNumber (Some (unat (Seq d)))), (''pairs'', j)])"
    using j v by (simp add: Marshal_def)
  have "data_members tc [(''version'', JString (Version d)),
                        (''seq'', JNumber (Some (unat (Seq d)))), (''pairs'', j)] newFileData
        = Inr \<lparr>Version = Version d, Seq = Seq d, Pairs = Pairs d\<rparr>"
    using dj
    by (simp add: data_member_def find_field_exact decode_string_def round_trip_uint64
        newFileData_def)
  then show ?thesis
    using m by (simp add: round_trip_def Unmarshal_def)
qed

lemma sync_writes_Marshal:
  assumes "sync tc d p dsk = (dsk', None)"
  shows "\<exists>j. Marshal tc d = Inr j \<and> dsk' = dsk\<lparr>files := (files dsk)(p \<mapsto> Text j)\<rparr>"
  using assms
  by (auto simp: sync_def WriteFile_def split: sum.splits option.splits write_fault.splits)

lemma portable_demo_data: "portable tally_codec demo_data"
proof -
  have "portable_entry tally_codec ''old'' \<lparr>Value = ''x'', NoExpire = False, ExpiresOn = 5\<rparr>"
    and "portable_entry tally_codec ''a'' \<lparr>Value = ''hello'', NoExpire = True, ExpiresOn = 0\<rparr>"
    by (simp_all add: portable_entry_def tally_codec_def byte_def list_all_iff)
  then have "fmpred (portable_entry tally_codec)
      (fmupd ''old'' \<lparr>Value = ''x'', NoExpire = False, ExpiresOn = 5\<rparr>
        (fmupd ''a'' \<lparr>Value = ''hello'', NoExpire = True, ExpiresOn = 0\<rparr> fmempty))"
    by (intro fmpred_upd fmpred_empty)
  then show ?thesis
    by (simp add: portable_def demo_data_def byte_def)
qed

lemma Marshal_binary_data:
  "Marshal tally_codec binary_data =
     Inr (JObject [(''version'', JString ''1''), (''seq'', JNumber (Some 1)),
                   (''pairs'', JObject [(''k'', entry_object
                       \<lparr>Value = [CHR 0xEF, CHR 0xBF, CHR 0xBD], NoExpire = True, ExpiresOn = 0\<rparr> [])])])"
  by (simp add: Marshal_def marshal_Pairs_def binary_data_def sorted_list_of_fset.rep_eq
      marshal_fileEntry_def tally_codec_def entry_object_def replacement_def byte_def between_def)

text \<open>
  The dataset \<open>binary_data\<close> is what a new store holds after \<open>Set("k", "\xff", 0)\<close> at
  instant \<open>0\<close>.
\<close>

lemma binary_data_is_set:
  "\<exists>dsk'. Set tally_codec 0 \<lparr>driver = ''file'', parameters = ''db'', path = ''db'',
                               data = Some newFileData\<rparr> ''k'' [CHR 0xFF] 0 empty_disk
     = Return (\<lparr>driver = ''file'', parameters = ''db'', path = ''db'', data = Some binary_data\<rparr>,
               dsk', None)"
proof -
  let ?fs = "\<lparr>driver = ''file'', parameters = ''db'', path = ''db'', data = Some newFileData\<rparr>"
  have d: "data ?fs = Some newFileData" by simp
  have p: "Pairs newFileData = Some fmempty" by (simp add: newFileData_def)
  have b: "newFileData\<lparr>Pairs := Some (fmupd ''k'' \<lparr>Value = [CHR 0xFF], NoExpire = (0 :: 64 word) = 0,
                                                   ExpiresOn = 0 + sint (0 :: 64 word)\<rparr> fmempty),
                        Seq := Seq newFileData + 1\<rparr> = binary_data"
    by (simp add: newFileData_def binary_data_def)
  obtain dsk' where "sync tally_codec binary_data ''db'' empty_disk = (dsk', None)"
    using sync_success [OF Marshal_binary_data, of "''db''" empty_disk]
    by (simp add: empty_disk_def unwritable_def)
  then show ?thesis
    using Set_Return [OF d p, of tally_codec 0 "''k''" "[CHR 0xFF]" 0 empty_disk] b by simp
qed

text \<open>
  Claim C4, as stated, fails on a value that is not valid UTF-8: \<open>json.Marshal\<close> writes
  the byte \<open>0xFF\<close> as U+FFFD, so the dataset read back holds the three bytes
  \<open>EF BF BD\<close> where the original held \<open>FF\<close>.
\<close>

theorem invalid_utf8_is_replaced:
  "map_index (Pairs binary_data) ''k'' = Some \<lparr>Value = [CHR 0xFF], NoExpire = True, ExpiresOn = 0\<rparr>
   \<and> round_trip tally_codec binary_data =
       Inr (Some \<lparr>Version = ''1'', Seq = 1,
                  Pairs = Some (fmupd ''k'' \<lparr>Value = [CHR 0xEF, CHR 0xBF, CHR 0xBD],
                                             NoExpire = True, ExpiresOn = 0\<rparr> fmempty)\<rparr>)
   \<and> round_trip tally_codec binary_data \<noteq> Inr (Some binary_data)"
proof -
  let ?e = "\<lparr>Value = [CHR 0xEF, CHR 0xBF, CHR 0xBD], NoExpire = True, ExpiresOn = 0\<rparr>"
  let ?got = "\<lparr>Version = ''1'', Seq = 1, Pairs = Some (fmupd ''k'' ?e fmempty)\<rparr>"
  have a: "map_index (Pairs binary_data) ''k'' = Some \<lparr>Value = [CHR 0xFF], NoExpire = True, ExpiresOn = 0\<rparr>"
    by (simp add: binary_data_def map_index_def)
  have e: "decode_fileEntry tally_codec (entry_object ?e []) zero_fileEntry = Inr ?e"
    unfolding entry_object_def
    by (simp add: decode_entry_object tally_codec_def replacement_def byte_def between_def)
  have "Unmarshal tally_codec (Text (JObject [(''version'', JString ''1''), (''seq'', JNumber (Some 1)),
                   (''pairs'', JObject [(''k'', entry_object ?e [])])])) newFileData = Inr (Some ?got)"
    using e
    by (simp add: Unmarshal_def data_member_def find_field_exact decode_string_def
        decode_uint64_def decode_Pairs_def newFileData_def)
  then have b: "round_trip tally_codec binary_data = Inr (Some ?got)"
    by (simp add: round_trip_def Marshal_binary_data)
  have "map_index (Pairs ?got) ''k'' \<noteq> map_index (Pairs binary_data) ''k''"
    by (simp add: binary_data_def map_index_def)
  then have "?got \<noteq> binary_data" by (rule contrapos_nn) (simp only:)
  with a b show ?thesis by simp
qed

text \<open>
  Claim C4, amended. For every dataset whose version, keys and values are valid UTF-8
  and whose \<open>ExpiresOn\<close> instants \<open>time.Time\<close> writes and reads back, serializing and
  deserializing yields the dataset itself: the same version, counter, and entries. The
  same holds through the file: after a \<open>sync\<close> that succeeds, \<open>newFileDataFromFile\<close>
  on a readable path returns the dataset.
\<close>

theorem round_trip_of_portable_data:
  assumes "portable tc d"
  shows "round_trip tc d = Inr (Some d)
       \<and> (sync tc d p dsk = (dsk', None) \<and> p \<notin> unreadable dsk' \<longrightarrow>
            newFileDataFromFile tc p dsk' = ((Some d, None), dsk'))"
proof (intro conjI impI)
  show rt: "round_trip tc d = Inr (Some d)"
    using round_trip_portable [OF assms] .
  assume a: "sync tc d p dsk = (dsk', None) \<and> p \<notin> unreadable dsk'"
  then obtain j where j: "Marshal tc d = Inr j"
    and w: "dsk' = dsk\<lparr>files := (files dsk)(p \<mapsto> Text j)\<rparr>"
    using sync_writes_Marshal by blast
  from w a have "ReadFile dsk' p = Inr (Text j)"
    by (simp add: ReadFile_def)
  moreover from rt j have "Unmarshal tc (Text j) newFileData = Inr (Some d)"
    by (simp add: round_trip_def)
  ultimately show "newFileDataFromFile tc p dsk' = ((Some d, None), dsk')"
    by (simp add: newFileDataFromFile_def)
qed

theorem round_trip_of_portable_data_witness:
  "portable tally_codec demo_data
   \<and> round_trip tally_codec demo_data = Inr (Some demo_data)
   \<and> (\<exists>dsk'. sync tally_codec demo_data ''db'' empty_disk = (dsk', None)
            \<and> newFileDataFromFile tally_codec ''db'' dsk' = ((Some demo_data, None), dsk'))"
proof -
  have p: "portable tally_codec demo_data"
    by (rule portable_demo_data)
  obtain j where j: "Marshal tally_codec demo_data = Inr j"
    using Marshal_demo_data by blast
  let ?dsk = "empty_disk\<lparr>files := (files empty_disk)(''db'' \<mapsto> Text j)\<rparr>"
  have s: "sync tally_codec demo_data ''db'' empty_disk = (?dsk, None)"
    using sync_success [OF j, of "''db''" empty_disk] by (simp add: empty_disk_def unwritable_def)
  have r: "''db'' \<notin> unreadable ?dsk"
    by (simp add: empty_disk_def)
  note T = round_trip_of_portable_data [OF p, of "''db''" empty_disk ?dsk]
  from T s r have "newFileDataFromFile tally_codec ''db'' ?dsk = ((Some demo_data, None), ?dsk)"
    by blast
  with s have "\<exists>dsk'. sync tally_codec demo_data ''db'' empty_disk = (dsk', None)
            \<and> newFileDataFromFile tally_codec ''db'' dsk' = ((Some demo_data, None), dsk')"
    by blast
  with p T show ?thesis by blast
qed


subsection \<open>The layout of the backing file\<close>

lemma marshal_members_layout:
  assumes "marshal_members tc m ks = Inr js" and "\<forall>k \<in> set ks. fmlookup m k \<noteq> None"
  shows "list_all2 (\<lambda>k member. \<exists>e s. fmlookup m k = Some e
                       \<and> format_time tc (ExpiresOn e) = Some s
                       \<and> member = (coerce_utf8 k, entry_object e s)) ks js"
  using assms
proof (induction ks arbitrary: js)
  case Nil
  then show ?case by simp
next
  case (Cons k ks)
  then obtain e where e: "fmlookup m k = Some e" by auto
  with Cons.prems(1) obtain s js' where s: "format_time tc (ExpiresOn e) = Some s"
    and js': "marshal_members tc m ks = Inr js'"
    and js: "js = (coerce_utf8 k, entry_object e s) # js'"
    by (auto simp: marshal_fileEntry_def entry_object_def split: option.splits sum.splits)
  from Cons.IH [OF js'] Cons.prems(2) e s js show ?case
    by simp
qed

text \<open>
  Claim C9. After a \<open>sync\<close> that succeeds, the file holds one JSON object whose members
  are, in this order, \<open>version\<close> (a string), \<open>seq\<close> (an unsigned integer) and \<open>pairs\<close>.
  For a map that is not nil, \<open>pairs\<close> is an object with one member per key, in sorted
  order, and each entry is an object with exactly the members \<open>value\<close> (a string),
  \<open>bool\<close> (the never-expires flag \<open>NoExpire\<close>) and \<open>expires_on\<close> (the text of the
  instant \<open>ExpiresOn\<close>). A nil map is written as \<open>null\<close>.
\<close>

theorem backing_file_layout:
  assumes "sync tc d fileName dsk = (dsk', None)"
  shows "\<exists>p. files dsk' fileName =
               Some (Text (JObject [(''version'', JString (coerce_utf8 (Version d))),
                                    (''seq'', JNumber (Some (unat (Seq d)))),
                                    (''pairs'', p)]))
           \<and> (case Pairs d of
                 None \<Rightarrow> p = JNull
               | Some m \<Rightarrow>
                   \<exists>ms. p = JObject ms
                      \<and> list_all2 (\<lambda>k member. \<exists>e s. fmlookup m k = Some e
                                     \<and> format_time tc (ExpiresOn e) = Some s
                                     \<and> member = (coerce_utf8 k,
                                                JObject [(''value'', JString (coerce_utf8 (Value e))),
                                                         (''bool'', JBool (NoExpire e)),
                                                         (''expires_on'', JString s)]))
                           (sorted_list_of_fset (fmdom m)) ms)"
proof -
  from sync_writes_Marshal [OF assms] obtain j where j: "Marshal tc d = Inr j"
    and w: "dsk' = dsk\<lparr>files := (files dsk)(fileName \<mapsto> Text j)\<rparr>"
    by blast
  from j obtain p where p: "marshal_Pairs tc (Pairs d) = Inr p"
    and jp: "j = JObject [(''version'', JString (coerce_utf8 (Version d))),
                          (''seq'', JNumber (Some (unat (Seq d)))), (''pairs'', p)]"
    by (auto simp: Marshal_def split: sum.splits)
  have "case Pairs d of
                 None \<Rightarrow> p = JNull
               | Some m \<Rightarrow>
                   \<exists>ms. p = JObject ms
                      \<and> list_all2 (\<lambda>k member. \<exists>e s. fmlookup m k = Some e
                                     \<and> format_time tc (ExpiresOn e) = Some s
                                     \<and> member = (coerce_utf8 k, entry_object e s))
                           (sorted_list_of_fset (fmdom m)) ms"
  proof (cases "Pairs d")
    case None
    with p show ?thesis by (simp add: marshal_Pairs_def)
  next
    case (Some m)
    with p obtain ms where ms: "marshal_members tc m (sorted_list_of_fset (fmdom m)) = Inr ms"
      and pm: "p = JObject ms"
      by (auto simp: marshal_Pairs_def split: sum.splits)
    have "\<forall>k \<in> set (sorted_list_of_fset (fmdom m)). fmlookup m k \<noteq> None"
      by (auto simp: fmlookup_dom_iff)
    from marshal_members_layout [OF ms this] pm Some show ?thesis by simp
  qed
  with w jp show ?thesis unfolding entry_object_def by simp
qed

theorem backing_file_layout_witness:
  "\<exists>dsk'. sync tally_codec demo_data ''db'' empty_disk = (dsk', None)
     \<and> files dsk' ''db'' =
         Some (Text (JObject
           [(''version'', JString ''1''),
            (''seq'', JNumber (Some 2)),
            (''pairs'', JObject
               [(''a'', JObject [(''value'', JString ''hello''), (''bool'', JBool True),
                                 (''expires_on'', JString [])]),
                (''old'', JObject [(''value'', JString ''x''), (''bool'', JBool False),
                                   (''expires_on'', JString ''TTTTT'')])])]))"
proof -
  obtain j where j: "Marshal tally_codec demo_data = Inr j"
    using Marshal_demo_data by blast
  let ?dsk = "empty_disk\<lparr>files := (files empty_disk)(''db'' \<mapsto> Text j)\<rparr>"
  have s: "sync tally_codec demo_data ''db'' empty_disk = (?dsk, None)"
    using sync_success [OF j, of "''db''" empty_disk] by (simp add: empty_disk_def unwritable_def)
  have ks: "sorted_list_of_fset {|''old'', ''a''|} = [''a'', ''old'']"
    by (simp add: sorted_list_of_fset.rep_eq)
  have rep: "replicate 5 CHR ''T'' = ''TTTTT''"
    by (simp add: numeral_eq_Suc)
  from backing_file_layout [OF s]
  have "files ?dsk ''db'' =
         Some (Text (JObject
           [(''version'', JString ''1''),
            (''seq'', JNumber (Some 2)),
            (''pairs'', JObject
               [(''a'', JObject [(''value'', JString ''hello''), (''bool'', JBool True),
                                 (''expires_on'', JString [])]),
                (''old'', JObject [(''value'', JString ''x''), (''bool'', JBool False),
                                   (''expires_on'', JString ''TTTTT'')])])]))"
    unfolding demo_data_def
    by (auto simp: ks rep list_all2_Cons1 entry_object_def tally_codec_def byte_def)
  with s show ?thesis by blast
qed

subsection \<open>Loading or creating the dataset\<close>

text \<open>
  When the file cannot be read, the loader returns the dataset of \<open>newFileData\<close> and
  the result of writing it at once: on a writable path the file then holds version
  \<open>1\<close>, counter \<open>0\<close> and no pairs. When the file is read and \<open>json.Unmarshal\<close> reports
  an error, construction fails and the file system is not touched.
\<close>

lemma Marshal_newFileData:
  "Marshal tc newFileData =
     Inr (JObject [(''version'', JString ''1''), (''seq'', JNumber (Some 0)),
                   (''pairs'', JObject [])])"
  by (simp add: Marshal_def marshal_Pairs_def newFileData_def sorted_list_of_fset.rep_eq byte_def)

lemma load_creates_fresh_dataset:
  assumes "ReadFile dsk p = Inl err"
  shows "\<exists>dsk' res.
           newFileDataFromFile tc p dsk = ((Some newFileData, res), dsk')
         \<and> sync tc newFileData p dsk = (dsk', res)
         \<and> (p \<notin> unwritable dsk \<longrightarrow>
              res = None
            \<and> files dsk' p =
                Some (Text (JObject [(''version'', JString ''1''), (''seq'', JNumber (Some 0)),
                                     (''pairs'', JObject [])])))
         \<and> (p \<in> unwritable dsk \<longrightarrow> res \<noteq> None)"
proof -
  obtain dsk' res where s: "sync tc newFileData p dsk = (dsk', res)"
    by (cases "sync tc newFileData p dsk")
  have "newFileDataFromFile tc p dsk = ((Some newFileData, res), dsk')"
    using assms s by (simp add: newFileDataFromFile_def)
  moreover have "p \<notin> unwritable dsk \<longrightarrow>
              res = None
            \<and> files dsk' p =
                Some (Text (JObject [(''version'', JString ''1''), (''seq'', JNumber (Some 0)),
                                     (''pairs'', JObject [])]))"
    using s sync_success [OF Marshal_newFileData, of p dsk tc] by auto
  moreover have "p \<in> unwritable dsk \<longrightarrow> res \<noteq> None"
    using s sync_unwritable [of p dsk tc newFileData] by auto
  ultimately show ?thesis using s by blast
qed

lemma load_rejects_undecodable:
  assumes "ReadFile dsk p = Inr c" and "Unmarshal tc c newFileData = Inl err"
  shows "NewFileStore tc p dsk =
           ((None, Some (Wrap (InvalidContent p err) ''can't read or create file store'')), dsk)"
  using assms by (simp add: NewFileStore_def newFileDataFromFile_def)

lemma Unmarshal_rejects:
  "Unmarshal tc (Malformed bytes) d = Inl JSONError"
  "Unmarshal tc (Text (JString s)) d = Inl JSONError"
  "Unmarshal tc (Text (JArray js)) d = Inl JSONError"
  "Unmarshal tc (Text (JNumber n)) d = Inl JSONError"
  "Unmarshal tc (Text (JBool b)) d = Inl JSONError"
  "Unmarshal tc (Text (JObject [(''pairs'', JArray js)])) d = Inl JSONError"
  "Unmarshal tc (Text (JObject [(''seq'', JString s)])) d = Inl JSONError"
  by (simp_all add: Unmarshal_def data_member_def find_field_exact decode_Pairs_def
      decode_uint64_def)

lemma ReadFile_disk_with: "ReadFile (disk_with p j) p = Inr (Text j)"
  by (simp add: ReadFile_def disk_with_def)

text \<open>
  Claim C3 says that construction fails when the content of the file does not
  deserialize into a valid dataset. The code does not do so for the JSON document
  \<open>null\<close>: \<open>json.Unmarshal\<close> reports no error and sets the pointer to nil, so
  \<open>NewFileStore\<close> returns a store without a dataset and no error, and \<open>Get\<close>, \<open>Set\<close> and
  \<open>Delete\<close> on that store panic.
\<close>

theorem null_file_opens_without_dataset:
  "NewFileStore tc p (disk_with p JNull) =
     ((Some \<lparr>driver = ''file'', parameters = p, path = p, data = None\<rparr>, None), disk_with p JNull)
   \<and> Get now \<lparr>driver = ''file'', parameters = p, path = p, data = None\<rparr> k = Panic
   \<and> Set tc now \<lparr>driver = ''file'', parameters = p, path = p, data = None\<rparr> k v ttl dsk = Panic
   \<and> Delete tc \<lparr>driver = ''file'', parameters = p, path = p, data = None\<rparr> k dsk = Panic"
  by (simp add: NewFileStore_def newFileDataFromFile_def ReadFile_disk_with Unmarshal_def
      Get_def Set_def Delete_def)

text \<open>
  A file with \<open>"pairs": null\<close> is accepted as well; it yields a dataset whose map is
  nil, on which \<open>Set\<close> panics.
\<close>

lemma null_pairs_opens_with_nil_map:
  "NewFileStore tc p (disk_with p (JObject [(''pairs'', JNull)])) =
     ((Some \<lparr>driver = ''file'', parameters = p, path = p,
             data = Some \<lparr>Version = ''1'', Seq = 0, Pairs = None\<rparr>\<rparr>, None),
      disk_with p (JObject [(''pairs'', JNull)]))
   \<and> Set tc now \<lparr>driver = ''file'', parameters = p, path = p,
             data = Some \<lparr>Version = ''1'', Seq = 0, Pairs = None\<rparr>\<rparr> k v ttl dsk = Panic"
  by (simp add: NewFileStore_def newFileDataFromFile_def ReadFile_disk_with Unmarshal_def
      data_member_def find_field_exact decode_Pairs_def newFileData_def Set_def)

text \<open>
  A counter at the largest \<open>uint64\<close> is what a file with that \<open>seq\<close> loads as: the store
  \<open>full_store\<close>.
\<close>

lemma full_store_is_loaded:
  "NewFileStore tc ''db'' (disk_with ''db'' (JObject [(''seq'', JNumber (Some 18446744073709551615))]))
     = ((Some full_store, None),
        disk_with ''db'' (JObject [(''seq'', JNumber (Some 18446744073709551615))]))"
  by (simp add: NewFileStore_def newFileDataFromFile_def ReadFile_disk_with Unmarshal_def
      data_member_def find_field_exact decode_uint64_def newFileData_def full_store_def)

end
